theory Spec2Isabelle
  imports Complex_Main
begin

section \<open>JavaScript numbers\<close>

text \<open>
  Every number of the program is an IEEE double. Finite values are modelled as reals;
  the three special values that a division by zero produces are kept, so that no division
  of the source is silently total. The operations below compute without rounding; the
  rounding of each result to the nearest double is added to them further down, for the
  coordinate mapping, whose bounds depend on it.
  Every denominator of the modelled code is non-negative (a size, a distance, a zoom
  factor), so a zero denominator is the positive zero.
\<close>

datatype jsnum = Fin real | PInf | NInf | NaN

fun js_neg :: "jsnum \<Rightarrow> jsnum" where
  "js_neg (Fin a) = Fin (- a)"
| "js_neg PInf = NInf"
| "js_neg NInf = PInf"
| "js_neg NaN = NaN"

fun js_add :: "jsnum \<Rightarrow> jsnum \<Rightarrow> jsnum" where
  "js_add NaN _ = NaN"
| "js_add _ NaN = NaN"
| "js_add (Fin a) (Fin b) = Fin (a + b)"
| "js_add PInf NInf = NaN"
| "js_add NInf PInf = NaN"
| "js_add PInf _ = PInf"
| "js_add _ PInf = PInf"
| "js_add NInf _ = NInf"
| "js_add _ NInf = NInf"

definition js_sub :: "jsnum \<Rightarrow> jsnum \<Rightarrow> jsnum" where
  "js_sub a b = js_add a (js_neg b)"

fun js_mul :: "jsnum \<Rightarrow> jsnum \<Rightarrow> jsnum" where
  "js_mul NaN _ = NaN"
| "js_mul _ NaN = NaN"
| "js_mul (Fin a) (Fin b) = Fin (a * b)"
| "js_mul (Fin a) PInf = (if a = 0 then NaN else if 0 < a then PInf else NInf)"
| "js_mul (Fin a) NInf = (if a = 0 then NaN else if 0 < a then NInf else PInf)"
| "js_mul PInf (Fin b) = (if b = 0 then NaN else if 0 < b then PInf else NInf)"
| "js_mul NInf (Fin b) = (if b = 0 then NaN else if 0 < b then NInf else PInf)"
| "js_mul PInf PInf = PInf"
| "js_mul PInf NInf = NInf"
| "js_mul NInf PInf = NInf"
| "js_mul NInf NInf = PInf"

fun js_div :: "jsnum \<Rightarrow> jsnum \<Rightarrow> jsnum" where
  "js_div NaN _ = NaN"
| "js_div _ NaN = NaN"
| "js_div (Fin a) (Fin b) =
     (if b = 0 then (if a = 0 then NaN else if 0 < a then PInf else NInf)
      else Fin (a / b))"
| "js_div (Fin a) PInf = Fin 0"
| "js_div (Fin a) NInf = Fin 0"
| "js_div PInf (Fin b) = (if 0 \<le> b then PInf else NInf)"
| "js_div NInf (Fin b) = (if 0 \<le> b then NInf else PInf)"
| "js_div PInf PInf = NaN"
| "js_div PInf NInf = NaN"
| "js_div NInf PInf = NaN"
| "js_div NInf NInf = NaN"

text \<open>\<open>a < b\<close>; every comparison with NaN is false.\<close>

fun js_lt :: "jsnum \<Rightarrow> jsnum \<Rightarrow> bool" where
  "js_lt NaN _ = False"
| "js_lt _ NaN = False"
| "js_lt (Fin a) (Fin b) = (a < b)"
| "js_lt (Fin a) PInf = True"
| "js_lt (Fin a) NInf = False"
| "js_lt PInf _ = False"
| "js_lt NInf (Fin b) = True"
| "js_lt NInf PInf = True"
| "js_lt NInf NInf = False"

definition js_gt :: "jsnum \<Rightarrow> jsnum \<Rightarrow> bool" where
  "js_gt a b = js_lt b a"

text \<open>\<open>Math.min\<close> and \<open>Math.max\<close> of two arguments: NaN as soon as one argument is NaN.\<close>

fun js_min :: "jsnum \<Rightarrow> jsnum \<Rightarrow> jsnum" where
  "js_min NaN _ = NaN"
| "js_min _ NaN = NaN"
| "js_min a b = (if js_lt b a then b else a)"

fun js_max :: "jsnum \<Rightarrow> jsnum \<Rightarrow> jsnum" where
  "js_max NaN _ = NaN"
| "js_max _ NaN = NaN"
| "js_max a b = (if js_lt a b then b else a)"

text \<open>\<open>Math.hypot\<close> of two finite numbers.\<close>

definition hypot :: "real \<Rightarrow> real \<Rightarrow> real" where
  "hypot a b = sqrt (a * a + b * b)"


section \<open>The canvas editor\<close>

subsection \<open>Data\<close>

text \<open>A \<open>DOMRect\<close> as returned by \<open>getBoundingClientRect\<close>.\<close>

record rect =
  rect_left :: real
  rect_top :: real
  rect_width :: real
  rect_height :: real

text \<open>The loaded image element: its source and its natural size (unsigned integers).\<close>

record image =
  src :: string
  naturalWidth :: nat
  naturalHeight :: nat

text \<open>
  A stroke segment drawn on the main canvas: start point, end point, \<open>strokeStyle\<close>
  and \<open>lineWidth\<close>.
\<close>

type_synonym segment = "(jsnum \<times> jsnum) \<times> (jsnum \<times> jsnum) \<times> string \<times> real"

text \<open>
  The bitmap of the main canvas: its size, the photo drawn on it by \<open>drawImage\<close>
  (\<open>None\<close> while nothing has been drawn: a blank, transparent bitmap) and the
  segments stroked over it, oldest first.
\<close>

record raster =
  r_width :: nat
  r_height :: nat
  photo :: "string option"
  strokes :: "segment list"

text \<open>
  The state of one \<open>CanvasEditor\<close>: \<open>canvas\<close> is \<open>mainCanvasRef.current\<close>
  with its bitmap (the preview canvas is mounted and unmounted with it), \<open>preview\<close> is
  the centre of the brush circle shown on the preview canvas, if any.
\<close>

record editor =
  canvas :: "raster option"
  image :: "image option"
  isDrawing :: bool
  lastPoint :: "(jsnum \<times> jsnum) option"
  preview :: "(jsnum \<times> jsnum) option"

text \<open>A mouse event carries one client position, a touch event the list \<open>touches\<close>.\<close>

datatype pointer_event = MouseEv real real | TouchEv "(real \<times> real) list"

text \<open>The props of the editor that the handlers read.\<close>

record brush =
  brushSize :: real
  brushColor :: string

text \<open>A freshly mounted editor: a canvas of the default size 300 x 150, no image yet.\<close>

definition mounted :: editor where
  "mounted = \<lparr>canvas = Some \<lparr>r_width = 300, r_height = 150, photo = None, strokes = []\<rparr>,
     image = None, isDrawing = False, lastPoint = None, preview = None\<rparr>"

text \<open>\<open>img.onload\<close>: the image is stored and drawn on the resized (hence cleared) canvas.\<close>

definition onload :: "image \<Rightarrow> editor \<Rightarrow> editor" where
  "onload img e = e\<lparr>image := Some img,
     canvas := map_option (\<lambda>_. \<lparr>r_width = naturalWidth img, r_height = naturalHeight img,
                                  photo = Some (src img), strokes = []\<rparr>) (canvas e)\<rparr>"

definition resetCanvas :: "editor \<Rightarrow> editor" where
  "resetCanvas e =
     (case (canvas e, image e) of
        (Some r, Some img) \<Rightarrow> e\<lparr>canvas := Some (r\<lparr>photo := Some (src img), strokes := []\<rparr>)\<rparr>
      | _ \<Rightarrow> e)"

subsection \<open>Export\<close>

text \<open>
  The string returned by \<open>toDataURL\<close>: the empty string, or the encoding of a bitmap
  in the requested type and quality.
\<close>

datatype data_url = EmptyString | Encoded raster "string option" "real option"

definition toDataURL :: "editor \<Rightarrow> string option \<Rightarrow> real option \<Rightarrow> data_url" where
  "toDataURL e type quality =
     (case canvas e of Some r \<Rightarrow> Encoded r type quality | None \<Rightarrow> EmptyString)"

subsection \<open>Coordinate mapping\<close>

text \<open>
  The rectangle that the image occupies inside the canvas box under
  \<open>object-contain\<close>, as \<open>getCoordinates\<close> computes it:
  \<open>(renderedWidth, renderedHeight, offsetX, offsetY)\<close>.
\<close>

definition containFit :: "image \<Rightarrow> rect \<Rightarrow> jsnum \<times> jsnum \<times> jsnum \<times> jsnum" where
  "containFit img r =
     (let containerWidth = Fin (rect_width r);
          containerHeight = Fin (rect_height r);
          imageAspectRatio = js_div (Fin (real (naturalWidth img))) (Fin (real (naturalHeight img)));
          containerAspectRatio = js_div containerWidth containerHeight
      in if js_gt imageAspectRatio containerAspectRatio
         then (let renderedWidth = containerWidth;
                   renderedHeight = js_div containerWidth imageAspectRatio
               in (renderedWidth, renderedHeight, Fin 0,
                   js_div (js_sub containerHeight renderedHeight) (Fin 2)))
         else (let renderedHeight = containerHeight;
                   renderedWidth = js_mul containerHeight imageAspectRatio
               in (renderedWidth, renderedHeight,
                   js_div (js_sub containerWidth renderedWidth) (Fin 2), Fin 0)))"

text \<open>The client position an event is read at: the mouse position, or the first touch.\<close>

fun clientPoint :: "pointer_event \<Rightarrow> (real \<times> real) option" where
  "clientPoint (MouseEv x y) = Some (x, y)"
| "clientPoint (TouchEv []) = None"
| "clientPoint (TouchEv (t # ts)) = Some t"

text \<open>
  \<open>getCoordinates\<close>; the second argument is what \<open>canvas.getBoundingClientRect()\<close>
  returns at the time of the event.
\<close>

definition getCoordinates ::
  "editor \<Rightarrow> rect \<Rightarrow> pointer_event \<Rightarrow> bool \<Rightarrow> (jsnum \<times> jsnum) option" where
  "getCoordinates e r event clamp =
     (case (canvas e, image e) of
        (Some cv, Some img) \<Rightarrow>
          (case clientPoint event of
             None \<Rightarrow> None
           | Some (clientX, clientY) \<Rightarrow>
               (case containFit img r of
                  (renderedWidth, renderedHeight, offsetX, offsetY) \<Rightarrow>
                    (let relativeX = Fin (clientX - rect_left r);
                         relativeY = Fin (clientY - rect_top r)
                     in if clamp \<and>
                           (js_lt relativeX offsetX \<or>
                            js_gt relativeX (js_add offsetX renderedWidth) \<or>
                            js_lt relativeY offsetY \<or>
                            js_gt relativeY (js_add offsetY renderedHeight))
                        then None
                        else (let imageRelativeX = js_sub relativeX offsetX;
                                  imageRelativeY = js_sub relativeY offsetY;
                                  scale = js_div (Fin (real (naturalWidth img))) renderedWidth
                              in Some (js_mul imageRelativeX scale,
                                       js_mul imageRelativeY scale)))))
      | _ \<Rightarrow> None)"

subsection \<open>Drawing\<close>

definition startDrawing :: "rect \<Rightarrow> pointer_event \<Rightarrow> editor \<Rightarrow> editor" where
  "startDrawing r event e =
     (case getCoordinates e r event True of
        None \<Rightarrow> e
      | Some coords \<Rightarrow> e\<lparr>isDrawing := True, lastPoint := Some coords\<rparr>)"

definition draw :: "brush \<Rightarrow> rect \<Rightarrow> pointer_event \<Rightarrow> editor \<Rightarrow> editor" where
  "draw b r event e =
     (if \<not> isDrawing e then e
      else case getCoordinates e r event True of
        None \<Rightarrow> e
      | Some coords \<Rightarrow>
          (case lastPoint e of
             None \<Rightarrow> e
           | Some lp \<Rightarrow>
               e\<lparr>canvas := map_option
                              (\<lambda>cv. cv\<lparr>strokes := strokes cv @ [(lp, coords, brushColor b, brushSize b)]\<rparr>)
                              (canvas e),
                  lastPoint := Some coords\<rparr>))"

definition stopDrawing :: "editor \<Rightarrow> editor" where
  "stopDrawing e = e\<lparr>isDrawing := False, lastPoint := None\<rparr>"

definition drawPreview :: "rect \<Rightarrow> pointer_event \<Rightarrow> editor \<Rightarrow> editor" where
  "drawPreview r event e =
     (case canvas e of
        None \<Rightarrow> e
      | Some cv \<Rightarrow> e\<lparr>preview := getCoordinates e r event False\<rparr>)"

definition clearPreview :: "editor \<Rightarrow> editor" where
  "clearPreview e = e\<lparr>preview := None\<rparr>"

definition handleMouseMove :: "brush \<Rightarrow> rect \<Rightarrow> pointer_event \<Rightarrow> editor \<Rightarrow> editor" where
  "handleMouseMove b r event e = draw b r event (drawPreview r event e)"

definition handleTouchMove :: "brush \<Rightarrow> rect \<Rightarrow> pointer_event \<Rightarrow> editor \<Rightarrow> editor" where
  "handleTouchMove b r event e = draw b r event e"

definition handleMouseLeave :: "editor \<Rightarrow> editor" where
  "handleMouseLeave e = clearPreview (stopDrawing e)"


section \<open>Double precision\<close>











section \<open>The viewport of the application\<close>

subsection \<open>Data\<close>

record pan_start =
  startX :: real
  startY :: real
  startPan :: "jsnum \<times> jsnum"

text \<open>The anchor of a pinch (\<open>pinchStartRef.current\<close>): \<open>dist\<close>, \<open>mid\<close>, \<open>zoom\<close>, \<open>pan\<close>.\<close>

record pinch_start =
  p_dist :: real
  p_mid :: "real \<times> real"
  p_zoom :: jsnum
  p_pan :: "jsnum \<times> jsnum"

record app =
  zoom :: jsnum
  pan :: "jsnum \<times> jsnum"
  isPanning :: bool
  panStartRef :: pan_start
  pinchStartRef :: "pinch_start option"

definition initial_app :: app where
  "initial_app = \<lparr>zoom = Fin 1, pan = (Fin 0, Fin 0), isPanning = False,
     panStartRef = \<lparr>startX = 0, startY = 0, startPan = (Fin 0, Fin 0)\<rparr>,
     pinchStartRef = None\<rparr>"

subsection \<open>Handlers\<close>

text \<open>
  In every handler the first argument is \<open>imageContainerRef.current\<close>, given by its
  bounding rectangle (\<open>None\<close> when the reference is null).
\<close>

definition handlePanByControl :: "real \<Rightarrow> real \<Rightarrow> app \<Rightarrow> app" where
  "handlePanByControl dx dy s =
     s\<lparr>pan := (js_add (fst (pan s)) (Fin dx), js_add (snd (pan s)) (Fin dy))\<rparr>"

definition handleWheel :: "rect option \<Rightarrow> real \<Rightarrow> real \<Rightarrow> real \<Rightarrow> app \<Rightarrow> app" where
  "handleWheel container clientX clientY deltaY s =
     (case container of
        None \<Rightarrow> s
      | Some r \<Rightarrow>
          (let mouseX = clientX - rect_left r;
               mouseY = clientY - rect_top r;
               delta = - deltaY * 0.005;
               prevZoom = zoom s;
               newZoom = js_max (Fin 1) (js_min (Fin 3) (js_add prevZoom (js_mul (Fin delta) prevZoom)));
               scaleFactor = js_div newZoom prevZoom;
               cx = rect_width r / 2;
               cy = rect_height r / 2;
               prevPan = pan s
           in s\<lparr>zoom := newZoom,
                pan := (js_add (js_mul (Fin (mouseX - cx)) (js_sub (Fin 1) scaleFactor))
                               (js_mul (fst prevPan) scaleFactor),
                        js_add (js_mul (Fin (mouseY - cy)) (js_sub (Fin 1) scaleFactor))
                               (js_mul (snd prevPan) scaleFactor))\<rparr>))"

definition handlePanStart :: "rect option \<Rightarrow> real \<Rightarrow> real \<Rightarrow> app \<Rightarrow> app" where
  "handlePanStart container clientX clientY s =
     (case container of
        None \<Rightarrow> s
      | Some r \<Rightarrow> s\<lparr>panStartRef := \<lparr>startX = clientX, startY = clientY, startPan = pan s\<rparr>,
                     isPanning := True\<rparr>)"

definition handlePanMove :: "real \<Rightarrow> real \<Rightarrow> app \<Rightarrow> app" where
  "handlePanMove clientX clientY s =
     (if \<not> isPanning s then s
      else s\<lparr>pan := (js_add (fst (startPan (panStartRef s))) (Fin (clientX - startX (panStartRef s))),
                     js_add (snd (startPan (panStartRef s))) (Fin (clientY - startY (panStartRef s))))\<rparr>)"

definition handlePanEnd :: "app \<Rightarrow> app" where
  "handlePanEnd s = s\<lparr>isPanning := False\<rparr>"

definition resetView :: "app \<Rightarrow> app" where
  "resetView s = s\<lparr>zoom := Fin 1, pan := (Fin 0, Fin 0)\<rparr>"

definition onMouseDown :: "rect option \<Rightarrow> nat \<Rightarrow> real \<Rightarrow> real \<Rightarrow> app \<Rightarrow> app" where
  "onMouseDown container button clientX clientY s =
     (if button \<noteq> 0 then s else handlePanStart container clientX clientY s)"

definition onMouseMove :: "real \<Rightarrow> real \<Rightarrow> app \<Rightarrow> app" where
  "onMouseMove clientX clientY s = handlePanMove clientX clientY s"

definition onTouchStart :: "rect option \<Rightarrow> (real \<times> real) list \<Rightarrow> app \<Rightarrow> app" where
  "onTouchStart container touches s =
     (if length touches = 2 then
        (let t1 = touches ! 0; t2 = touches ! 1
         in s\<lparr>isPanning := False,
              pinchStartRef := Some \<lparr>p_dist = hypot (fst t1 - fst t2) (snd t1 - snd t2),
                                      p_mid = ((fst t1 + fst t2) / 2, (snd t1 + snd t2) / 2),
                                      p_zoom = zoom s, p_pan = pan s\<rparr>\<rparr>)
      else if length touches = 1 then
        handlePanStart container (fst (touches ! 0)) (snd (touches ! 0)) (s\<lparr>pinchStartRef := None\<rparr>)
      else s)"

text \<open>The pinch branch of \<open>onTouchMove\<close>, for two touches and a pinch anchor.\<close>

definition pinchMove ::
  "rect option \<Rightarrow> real \<times> real \<Rightarrow> real \<times> real \<Rightarrow> pinch_start \<Rightarrow> app \<Rightarrow> app" where
  "pinchMove container t1 t2 p s =
     (let newDist = hypot (fst t1 - fst t2) (snd t1 - snd t2);
          scale = js_div (Fin newDist) (Fin (p_dist p));
          newZoom = js_max (Fin 1) (js_min (Fin 3) (js_mul (p_zoom p) scale))
      in case container of
           None \<Rightarrow> s
         | Some r \<Rightarrow>
             (let startMidOnScreen = (fst (p_mid p) - rect_left r, snd (p_mid p) - rect_top r);
                  worldPoint = (js_div (js_sub (Fin (fst startMidOnScreen)) (fst (p_pan p))) (p_zoom p),
                                js_div (js_sub (Fin (snd startMidOnScreen)) (snd (p_pan p))) (p_zoom p));
                  newMid = ((fst t1 + fst t2) / 2, (snd t1 + snd t2) / 2);
                  newMidOnScreen = (fst newMid - rect_left r, snd newMid - rect_top r);
                  newPan = (js_sub (Fin (fst newMidOnScreen)) (js_mul (fst worldPoint) newZoom),
                            js_sub (Fin (snd newMidOnScreen)) (js_mul (snd worldPoint) newZoom))
              in s\<lparr>zoom := newZoom, pan := newPan\<rparr>))"

definition onTouchMove :: "rect option \<Rightarrow> (real \<times> real) list \<Rightarrow> app \<Rightarrow> app" where
  "onTouchMove container touches s =
     (if length touches = 2 \<and> pinchStartRef s \<noteq> None then
        (case pinchStartRef s of
           Some p \<Rightarrow> pinchMove container (touches ! 0) (touches ! 1) p s
         | None \<Rightarrow> s)
      else if length touches = 1 \<and> isPanning s then
        handlePanMove (fst (touches ! 0)) (snd (touches ! 0)) s
      else s)"

definition onTouchEnd :: "rect option \<Rightarrow> (real \<times> real) list \<Rightarrow> app \<Rightarrow> app" where
  "onTouchEnd container touches s =
     (let s1 = handlePanEnd s;
          s2 = (if length touches < 2 then s1\<lparr>pinchStartRef := None\<rparr> else s1)
      in if length touches = 1
         then handlePanStart container (fst (touches ! 0)) (snd (touches ! 0)) s2
         else s2)"

text \<open>The zoom buttons of the toolbar.\<close>

definition zoomOutClick :: "app \<Rightarrow> app" where
  "zoomOutClick s = s\<lparr>zoom := js_max (Fin 1) (js_sub (zoom s) (Fin 0.2))\<rparr>"

definition zoomInClick :: "app \<Rightarrow> app" where
  "zoomInClick s = s\<lparr>zoom := js_min (Fin 3) (js_add (zoom s) (Fin 0.2))\<rparr>"

text \<open>
  The style of the element that wraps the editor is
  \<open>transform: scale(zoom) translate(pan.x px, pan.y px)\<close>: a point of the element, given
  relative to the transform origin, is first translated by \<open>pan\<close> and then scaled by
  \<open>zoom\<close>. The element is centred in the container, and the origin of the transform is
  the centre of the element, so \<open>screenPosition\<close> gives the position in the container
  at which a point of the element is displayed.
\<close>

definition viewTransform :: "real \<Rightarrow> real \<times> real \<Rightarrow> real \<times> real \<Rightarrow> real \<times> real" where
  "viewTransform z p q = (z * (fst q + fst p), z * (snd q + snd p))"

definition screenPosition :: "rect \<Rightarrow> real \<Rightarrow> real \<times> real \<Rightarrow> real \<times> real \<Rightarrow> real \<times> real" where
  "screenPosition r z p q =
     (rect_width r / 2 + fst (viewTransform z p q), rect_height r / 2 + snd (viewTransform z p q))"

text \<open>
  Where a point of the element is displayed in a state of the viewport; a zoom or a pan
  that is not finite makes the style invalid, and the element is then not transformed by
  it at all.
\<close>

definition displayed :: "rect \<Rightarrow> app \<Rightarrow> real \<times> real \<Rightarrow> (real \<times> real) option" where
  "displayed r s q =
     (case (zoom s, pan s) of
        (Fin z, Fin px, Fin py) \<Rightarrow> Some (screenPosition r z (px, py) q)
      | _ \<Rightarrow> None)"

section \<open>Events\<close>

text \<open>
  The editor is a descendant of the container: an event whose target is the editor runs
  the handler of the editor and then, bubbling, the handler of the container; an event on
  the container outside the editor runs the handler of the container only. Leaving an
  element does not bubble. The buttons of the toolbar lie outside the container.
\<close>

datatype target = OnEditor | OnContainer

datatype event =
    MouseDown target nat real real
  | MouseMove target real real
  | MouseUp target
  | LeaveEditor
  | LeaveContainer
  | TouchStart target "(real \<times> real) list"
  | TouchMove target "(real \<times> real) list"
  | TouchEnd target "(real \<times> real) list"
  | Wheel real real real
  | ZoomInButton
  | ZoomOutButton
  | ResetViewButton
  | PanControl real real
  | ImageLoaded image

text \<open>What the handlers read from the document when an event arrives.\<close>

record env =
  containerRect :: "rect option"
  canvasRect :: rect
  brushProps :: brush

record system =
  view :: app
  edit :: editor

definition initial :: system where
  "initial = \<lparr>view = initial_app, edit = mounted\<rparr>"

definition on_editor :: "target \<Rightarrow> (editor \<Rightarrow> editor) \<Rightarrow> editor \<Rightarrow> editor" where
  "on_editor t h e = (case t of OnEditor \<Rightarrow> h e | OnContainer \<Rightarrow> e)"

fun step :: "env \<Rightarrow> event \<Rightarrow> system \<Rightarrow> system" where
  "step v (MouseDown t button x y) s =
     \<lparr>view = onMouseDown (containerRect v) button x y (view s),
      edit = on_editor t (startDrawing (canvasRect v) (MouseEv x y)) (edit s)\<rparr>"
| "step v (MouseMove t x y) s =
     \<lparr>view = onMouseMove x y (view s),
      edit = on_editor t (handleMouseMove (brushProps v) (canvasRect v) (MouseEv x y)) (edit s)\<rparr>"
| "step v (MouseUp t) s =
     \<lparr>view = (view s)\<lparr>isPanning := False\<rparr>, edit = on_editor t stopDrawing (edit s)\<rparr>"
| "step v LeaveEditor s = s\<lparr>edit := handleMouseLeave (edit s)\<rparr>"
| "step v LeaveContainer s = s\<lparr>view := (view s)\<lparr>isPanning := False\<rparr>\<rparr>"
| "step v (TouchStart t ts) s =
     \<lparr>view = onTouchStart (containerRect v) ts (view s),
      edit = on_editor t (startDrawing (canvasRect v) (TouchEv ts)) (edit s)\<rparr>"
| "step v (TouchMove t ts) s =
     \<lparr>view = onTouchMove (containerRect v) ts (view s),
      edit = on_editor t (handleTouchMove (brushProps v) (canvasRect v) (TouchEv ts)) (edit s)\<rparr>"
| "step v (TouchEnd t ts) s =
     \<lparr>view = onTouchEnd (containerRect v) ts (view s), edit = on_editor t stopDrawing (edit s)\<rparr>"
| "step v (Wheel x y deltaY) s = s\<lparr>view := handleWheel (containerRect v) x y deltaY (view s)\<rparr>"
| "step v ZoomInButton s = s\<lparr>view := zoomInClick (view s)\<rparr>"
| "step v ZoomOutButton s = s\<lparr>view := zoomOutClick (view s)\<rparr>"
| "step v ResetViewButton s = s\<lparr>view := resetView (view s)\<rparr>"
| "step v (PanControl dx dy) s = s\<lparr>view := handlePanByControl dx dy (view s)\<rparr>"
| "step v (ImageLoaded img) s = s\<lparr>edit := onload img (edit s)\<rparr>"

text \<open>A run: each event comes with what the document shows when it arrives.\<close>

fun run :: "(env \<times> event) list \<Rightarrow> system \<Rightarrow> system" where
  "run [] s = s"
| "run ((v, ev) # evs) s = run evs (step v ev s)"

text \<open>The gestures in progress.\<close>

datatype gesture = Panning | Pinching | Drawing

definition active :: "system \<Rightarrow> gesture \<Rightarrow> bool" where
  "active s g =
     (case g of
        Panning \<Rightarrow> isPanning (view s)
      | Pinching \<Rightarrow> pinchStartRef (view s) \<noteq> None
      | Drawing \<Rightarrow> isDrawing (edit s))"


text \<open>The pointer of an event that moves the mouse or the touches over the editor.\<close>

fun move_pointer :: "event \<Rightarrow> pointer_event option" where
  "move_pointer (MouseMove OnEditor x y) = Some (MouseEv x y)"
| "move_pointer (TouchMove OnEditor ts) = Some (TouchEv ts)"
| "move_pointer _ = None"

section \<open>Concrete inputs\<close>

text \<open>
  A photo of 1000 x 500 pixels, a box of 800 x 800 pixels at the origin of the client area
  (the photo is letterboxed in it: 800 x 400 pixels, 200 pixels below the top), an empty
  box, the editor once the photo has loaded, and a brush.
\<close>

definition example_photo :: image where
  "example_photo = \<lparr>src = ''photo'', naturalWidth = 1000, naturalHeight = 500\<rparr>"

definition example_box :: rect where
  "example_box = \<lparr>rect_left = 0, rect_top = 0, rect_width = 800, rect_height = 800\<rparr>"

definition empty_box :: rect where
  "empty_box = \<lparr>rect_left = 0, rect_top = 0, rect_width = 0, rect_height = 0\<rparr>"

text \<open>An image that has loaded with no intrinsic size.\<close>

definition empty_photo :: image where
  "empty_photo = \<lparr>src = ''empty'', naturalWidth = 0, naturalHeight = 0\<rparr>"


definition loaded :: editor where
  "loaded = onload example_photo mounted"

definition example_brush :: brush where
  "example_brush = \<lparr>brushSize = 20, brushColor = ''#ff0000''\<rparr>"

definition example_env :: env where
  "example_env = \<lparr>containerRect = Some example_box, canvasRect = example_box,
     brushProps = example_brush\<rparr>"


section \<open>The range of the zoom factor\<close>

definition zoom_in_range :: "jsnum \<Rightarrow> bool" where
  "zoom_in_range z = (case z of Fin a \<Rightarrow> 1 \<le> a \<and> a \<le> 3 | _ \<Rightarrow> False)"

text \<open>
  A move of two touches that lie on one point, for a pinch that started with two touches on
  one point: the only event at which \<open>onTouchMove\<close> divides zero by zero.
\<close>

definition degenerate_pinch :: "event \<Rightarrow> app \<Rightarrow> bool" where
  "degenerate_pinch ev s =
     (case ev of
        TouchMove t ts \<Rightarrow>
          (case pinchStartRef s of
             Some p \<Rightarrow> length ts = 2 \<and> p_dist p = 0 \<and>
                       hypot (fst (ts ! 0) - fst (ts ! 1)) (snd (ts ! 0) - snd (ts ! 1)) = 0
           | None \<Rightarrow> False)
      | _ \<Rightarrow> False)"

fun regular :: "(env \<times> event) list \<Rightarrow> system \<Rightarrow> bool" where
  "regular [] s = True"
| "regular ((v, ev) # evs) s = (\<not> degenerate_pinch ev (view s) \<and> regular evs (step v ev s))"

definition zoom_inv :: "app \<Rightarrow> bool" where
  "zoom_inv s = (zoom_in_range (zoom s) \<and>
     (case pinchStartRef s of Some p \<Rightarrow> zoom_in_range (p_zoom p) \<and> 0 \<le> p_dist p | None \<Rightarrow> True))"

section \<open>Arithmetic of JavaScript numbers\<close>

lemmas example_defs = example_photo_def example_box_def empty_box_def loaded_def
  example_brush_def example_env_def mounted_def onload_def initial_def initial_app_def

lemmas mapping_defs = getCoordinates_def containFit_def Let_def js_gt_def js_sub_def

lemma js_mul_one: "js_mul p (Fin 1) = p"
  by (cases p) simp_all

lemma js_add_zero: "js_add (Fin 0) p = p"
  by (cases p) simp_all

lemma hypot_horizontal: "hypot a 0 = \<bar>a\<bar>"
  by (simp add: hypot_def)

lemma hypot_nonneg: "0 \<le> hypot a b"
  by (simp add: hypot_def)

lemma zoom_in_range_Fin: "zoom_in_range z \<longleftrightarrow> (\<exists>a. z = Fin a \<and> 1 \<le> a \<and> a \<le> 3)"
  by (cases z) (simp_all add: zoom_in_range_def)

lemma clamp_in_range: "z \<noteq> NaN \<Longrightarrow> zoom_in_range (js_max (Fin 1) (js_min (Fin 3) z))"
  by (cases z) (simp_all add: zoom_in_range_def)

lemma scaled_in_range:
  fixes d w c :: real
  assumes "0 \<le> d" "d \<le> w" "0 \<le> c"
  shows "0 \<le> d * c \<and> d * c \<le> w * c"
  using assms by (intro conjI mult_nonneg_nonneg mult_right_mono)

section \<open>Rounding\<close>































section \<open>Coordinate mapping\<close>

lemma containFit_pos:
  assumes "0 < naturalWidth img" "0 < naturalHeight img" "0 < rect_width r" "0 < rect_height r"
  shows "containFit img r =
     (if rect_width r / rect_height r < real (naturalWidth img) / real (naturalHeight img)
      then (Fin (rect_width r),
            Fin (rect_width r / (real (naturalWidth img) / real (naturalHeight img))),
            Fin 0,
            Fin ((rect_height r - rect_width r / (real (naturalWidth img) / real (naturalHeight img))) / 2))
      else (Fin (rect_height r * (real (naturalWidth img) / real (naturalHeight img))),
            Fin (rect_height r),
            Fin ((rect_width r - rect_height r * (real (naturalWidth img) / real (naturalHeight img))) / 2),
            Fin 0))"
  using assms by (simp add: containFit_def Let_def js_gt_def js_sub_def)

text \<open>
  On positive sizes the rectangle is finite, not empty, and has the aspect ratio of the
  image.
\<close>

lemma containFit_finite:
  assumes "0 < naturalWidth img" "0 < naturalHeight img" "0 < rect_width r" "0 < rect_height r"
  obtains rw rh ox oy where "containFit img r = (Fin rw, Fin rh, Fin ox, Fin oy)"
    and "0 < rw" and "0 < rh" and "rh * (real (naturalWidth img) / rw) = real (naturalHeight img)"
proof (cases "rect_width r / rect_height r < real (naturalWidth img) / real (naturalHeight img)")
  case True
  show ?thesis
  proof (rule that)
    show "containFit img r = (Fin (rect_width r),
            Fin (rect_width r / (real (naturalWidth img) / real (naturalHeight img))),
            Fin 0,
            Fin ((rect_height r - rect_width r / (real (naturalWidth img) / real (naturalHeight img))) / 2))"
      using True assms by (simp only: containFit_pos if_True)
    show "0 < rect_width r" by (rule assms)
    show "0 < rect_width r / (real (naturalWidth img) / real (naturalHeight img))"
      using assms by simp
    show "rect_width r / (real (naturalWidth img) / real (naturalHeight img)) *
          (real (naturalWidth img) / rect_width r) = real (naturalHeight img)"
      using assms by simp
  qed
next
  case False
  show ?thesis
  proof (rule that)
    show "containFit img r = (Fin (rect_height r * (real (naturalWidth img) / real (naturalHeight img))),
            Fin (rect_height r),
            Fin ((rect_width r - rect_height r * (real (naturalWidth img) / real (naturalHeight img))) / 2),
            Fin 0)"
      using False assms by (simp only: containFit_pos if_False)
    show "0 < rect_height r * (real (naturalWidth img) / real (naturalHeight img))"
      using assms by simp
    show "0 < rect_height r" by (rule assms)
    show "rect_height r * (real (naturalWidth img) /
            (rect_height r * (real (naturalWidth img) / real (naturalHeight img)))) = real (naturalHeight img)"
      using assms by simp
  qed
qed

text \<open>The contain-fit examples: a wide photo and a tall photo in a square box.\<close>

lemma containFit_wide: "containFit example_photo example_box = (Fin 800, Fin 400, Fin 0, Fin 200)"
  by (simp add: containFit_def example_defs Let_def js_gt_def js_sub_def)

lemma containFit_tall:
  "containFit \<lparr>src = ''tall'', naturalWidth = 500, naturalHeight = 1000\<rparr> example_box
     = (Fin 400, Fin 800, Fin 200, Fin 0)"
  by (simp add: containFit_def example_defs Let_def js_gt_def js_sub_def)

lemma getCoordinates_finite:
  assumes "canvas e = Some cv" "image e = Some img" "clientPoint ev = Some (x, y)"
    and "containFit img r = (Fin rw, Fin rh, Fin ox, Fin oy)"
  shows "getCoordinates e r ev c =
     (if c \<and> (x - rect_left r < ox \<or> ox + rw < x - rect_left r \<or>
               y - rect_top r < oy \<or> oy + rh < y - rect_top r)
      then None
      else Some (js_mul (Fin (x - rect_left r - ox)) (js_div (Fin (real (naturalWidth img))) (Fin rw)),
                 js_mul (Fin (y - rect_top r - oy)) (js_div (Fin (real (naturalWidth img))) (Fin rw))))"
  using assms by (simp add: getCoordinates_def Let_def js_gt_def js_sub_def)

lemma getCoordinates_cong:
  "canvas e' = canvas e \<Longrightarrow> image e' = image e \<Longrightarrow>
   getCoordinates e' r ev c = getCoordinates e r ev c"
  by (simp add: getCoordinates_def)

text \<open>
  Without rounding, for positive sizes of the image and of the box, a clamped mapping returns
  only points of \<open>[0, naturalWidth] x [0, naturalHeight]\<close>, and a position outside the
  letterboxed rectangle is mapped to no point when clamped and to a point otherwise.
\<close>

lemma getCoordinates_exact_bounds:
  assumes "canvas e = Some cv" and "image e = Some img"
    and "0 < naturalWidth img" and "0 < naturalHeight img"
    and "0 < rect_width r" and "0 < rect_height r"
    and "clientPoint ev = Some (x, y)"
    and "containFit img r = (Fin rw, Fin rh, Fin ox, Fin oy)"
  shows "(\<forall>X Y. getCoordinates e r ev True = Some (X, Y) \<longrightarrow>
            (\<exists>a b. X = Fin a \<and> Y = Fin b \<and> 0 \<le> a \<and> a \<le> real (naturalWidth img) \<and>
                    0 \<le> b \<and> b \<le> real (naturalHeight img))) \<and>
         (x - rect_left r < ox \<or> ox + rw < x - rect_left r \<or>
          y - rect_top r < oy \<or> oy + rh < y - rect_top r \<longrightarrow>
            getCoordinates e r ev True = None \<and>
            getCoordinates e r ev False =
              Some (Fin ((x - rect_left r - ox) * (real (naturalWidth img) / rw)),
                    Fin ((y - rect_top r - oy) * (real (naturalWidth img) / rw))))"
proof -
  obtain rw' rh' ox' oy' where box: "containFit img r = (Fin rw', Fin rh', Fin ox', Fin oy')"
    and pos: "0 < rw'" "0 < rh'"
    and ratio: "rh' * (real (naturalWidth img) / rw') = real (naturalHeight img)"
    using containFit_finite [OF assms(3-6)] by blast
  from box assms(8) have same: "rw' = rw" "rh' = rh" "ox' = ox" "oy' = oy" by simp_all
  have rw: "0 < rw" and rh: "0 < rh"
    and rt: "rh * (real (naturalWidth img) / rw) = real (naturalHeight img)"
    using pos ratio same by simp_all
  have wid: "rw * (real (naturalWidth img) / rw) = real (naturalWidth img)"
    using rw by simp
  note gc = getCoordinates_finite [OF assms(1,2,7,8)]
  have inside: "\<exists>a b. X = Fin a \<and> Y = Fin b \<and> 0 \<le> a \<and> a \<le> real (naturalWidth img) \<and>
                    0 \<le> b \<and> b \<le> real (naturalHeight img)"
    if "getCoordinates e r ev True = Some (X, Y)" for X Y
  proof -
    from that have bx: "0 \<le> x - rect_left r - ox" "x - rect_left r - ox \<le> rw"
      and "by": "0 \<le> y - rect_top r - oy" "y - rect_top r - oy \<le> rh"
      by (auto simp: gc split: if_splits)
    from that rw have X: "X = Fin ((x - rect_left r - ox) * (real (naturalWidth img) / rw))"
      and Y: "Y = Fin ((y - rect_top r - oy) * (real (naturalWidth img) / rw))"
      by (auto simp: gc split: if_splits)
    have k: "0 \<le> real (naturalWidth img) / rw" using rw by simp
    have "0 \<le> (x - rect_left r - ox) * (real (naturalWidth img) / rw) \<and>
          (x - rect_left r - ox) * (real (naturalWidth img) / rw) \<le> real (naturalWidth img)"
      using scaled_in_range [OF bx k] by (simp only: wid)
    moreover have "0 \<le> (y - rect_top r - oy) * (real (naturalWidth img) / rw) \<and>
          (y - rect_top r - oy) * (real (naturalWidth img) / rw) \<le> real (naturalHeight img)"
      using scaled_in_range [OF "by" k] by (simp only: rt)
    ultimately show ?thesis using X Y by blast
  qed
  have outside: "getCoordinates e r ev True = None \<and>
            getCoordinates e r ev False =
              Some (Fin ((x - rect_left r - ox) * (real (naturalWidth img) / rw)),
                    Fin ((y - rect_top r - oy) * (real (naturalWidth img) / rw)))"
    if "x - rect_left r < ox \<or> ox + rw < x - rect_left r \<or>
          y - rect_top r < oy \<or> oy + rh < y - rect_top r"
    using that rw by (simp add: gc)
  show ?thesis using inside outside by blast
qed

text \<open>
  The position \<open>(400, 50)\<close> lies in the box and in the upper margin of the letterboxed
  photo: no point when clamped, a point with a negative ordinate otherwise.
\<close>

lemma getCoordinates_exact_margin:
  "getCoordinates loaded example_box (MouseEv 400 50) True = None \<and>
   getCoordinates loaded example_box (MouseEv 400 50) False = Some (Fin 500, Fin (- 187.5))"
proof -
  have cv: "canvas loaded = Some \<lparr>r_width = 1000, r_height = 500, photo = Some ''photo'', strokes = []\<rparr>"
    by (simp add: example_defs)
  have im: "image loaded = Some example_photo" by (simp add: example_defs)
  have nw: "0 < naturalWidth example_photo" and nh: "0 < naturalHeight example_photo"
    by (simp_all add: example_defs)
  have bw: "0 < rect_width example_box" and bh: "0 < rect_height example_box"
    by (simp_all add: example_defs)
  have pt: "clientPoint (MouseEv 400 50) = Some (400, 50)" by simp
  from getCoordinates_exact_bounds [OF cv im nw nh bw bh pt containFit_wide]
  show ?thesis by (simp add: example_defs)
qed


subsection \<open>With rounding\<close>











text \<open>
  C5: the mapping returns null when the canvas or the image is missing (the photo has not
  loaded) or when a touch event carries no touch. A zero width or height is not checked:
  with the canvas and the image present, a mapping with \<open>clamp = false\<close> returns a point
  for every position, whatever the sizes of the box and of the image, zero included.
\<close>

theorem getCoordinates_null_cases:
  "(canvas e = None \<or> image e = None \<or> clientPoint ev = None \<longrightarrow>
      getCoordinates e r ev c = None) \<and>
   (canvas e \<noteq> None \<and> image e \<noteq> None \<and> clientPoint ev \<noteq> None \<longrightarrow>
      getCoordinates e r ev False \<noteq> None)"
  by (auto simp: getCoordinates_def Let_def split: option.splits prod.splits)

theorem getCoordinates_null_cases_witness:
  "getCoordinates mounted example_box (MouseEv 10 10) True = None \<and>
   getCoordinates loaded empty_box (MouseEv 10 10) False \<noteq> None"
proof -
  have "image mounted = None" by (simp add: example_defs)
  with getCoordinates_null_cases [of mounted "MouseEv 10 10" example_box True]
  have none: "getCoordinates mounted example_box (MouseEv 10 10) True = None" by simp
  have "canvas loaded \<noteq> None \<and> image loaded \<noteq> None \<and> clientPoint (MouseEv 10 10) \<noteq> None"
    by (simp add: example_defs)
  with getCoordinates_null_cases [of loaded "MouseEv 10 10" empty_box]
  have "getCoordinates loaded empty_box (MouseEv 10 10) False \<noteq> None" by simp
  with none show ?thesis by simp
qed

text \<open>
  For an image of size zero in the box of 800 x 800 pixels the aspect ratio is
  \<open>0 / 0\<close>; no comparison with NaN rejects the position \<open>(400, 400)\<close>, and the
  point returned is \<open>(NaN, NaN)\<close>. In a box of size zero the corner of the box passes
  the clamp test; the scale is then \<open>1000 / 0\<close>, and the point returned is
  \<open>(0 * Infinity, 0 * Infinity)\<close>.
\<close>

theorem getCoordinates_zero_size:
  "getCoordinates (onload empty_photo mounted) example_box (MouseEv 400 400) True = Some (NaN, NaN) \<and>
   getCoordinates loaded empty_box (MouseEv 0 0) True = Some (NaN, NaN)"
  by (simp add: mapping_defs example_defs empty_photo_def)

lemma getCoordinates_empty_box_unclamped:
  "getCoordinates loaded empty_box (MouseEv 10 10) False = Some (PInf, PInf)"
  by (simp add: mapping_defs example_defs)

section \<open>Export\<close>

lemma toDataURL_canvas: "canvas e = Some r \<Longrightarrow> toDataURL e t q = Encoded r t q"
  by (simp add: toDataURL_def)

lemma toDataURL_no_canvas: "canvas e = None \<Longrightarrow> toDataURL e t q = EmptyString"
  by (simp add: toDataURL_def)

text \<open>
  C9: an export invoked while no photo is bound returns an explicit failure rather than a
  blank image. In the editor as mounted, before the photo has loaded, the export is the
  encoding of the blank canvas of 300 x 150 pixels, not the empty string.
\<close>

theorem toDataURL_before_load:
  "image mounted = None \<and>
   toDataURL mounted None None =
     Encoded \<lparr>r_width = 300, r_height = 150, photo = None, strokes = []\<rparr> None None \<and>
   toDataURL mounted None None \<noteq> EmptyString"
  by (simp add: toDataURL_def mounted_def)

section \<open>Wheel zoom\<close>

text \<open>The update of \<open>handleWheel\<close> on a finite state, in real arithmetic.\<close>

lemma handleWheel_finite:
  assumes "zoom s = Fin z" and "1 \<le> z" and "pan s = (Fin px, Fin py)"
  shows "handleWheel (Some r) x y deltaY s =
     s\<lparr>zoom := Fin (max 1 (min 3 (z + - deltaY * 0.005 * z))),
       pan := (Fin ((x - rect_left r - rect_width r / 2) * (1 - max 1 (min 3 (z + - deltaY * 0.005 * z)) / z)
                    + px * (max 1 (min 3 (z + - deltaY * 0.005 * z)) / z)),
               Fin ((y - rect_top r - rect_height r / 2) * (1 - max 1 (min 3 (z + - deltaY * 0.005 * z)) / z)
                    + py * (max 1 (min 3 (z + - deltaY * 0.005 * z)) / z)))\<rparr>"
  using assms by (simp add: handleWheel_def Let_def js_sub_def max_def min_def)

text \<open>
  The new pan keeps the point under the cursor in place if the pan is a displacement on
  the screen, added after the scaling: if \<open>c + p + z * q\<close> is the cursor \<open>m\<close>, then so is
  \<open>c + p' + z' * q\<close> for the new pan \<open>p'\<close> and any new zoom \<open>z'\<close>.
\<close>

lemma wheel_anchor_unscaled_pan:
  fixes z z' :: real
  assumes "z \<noteq> 0" and "c + p + z * q = m"
  shows "c + ((m - c) * (1 - z' / z) + p * (z' / z)) + z' * q = m"
proof -
  have mc: "m - c = p + z * q" using assms(2) by simp
  have "(p + z * q) * (1 - z' / z) + p * (z' / z) + z' * q = p + z * q"
    using assms(1) by (simp add: field_simps)
  then have "(m - c) * (1 - z' / z) + p * (z' / z) + z' * q = m - c"
    by (simp only: mc)
  then show ?thesis by simp
qed

text \<open>
  With the pan scaled by the zoom, as the style does, the point that was displayed at the
  cursor \<open>m\<close> is displayed after the step at a distance of
  \<open>(z' - z) / z * ((m - c) * (1 - z') + p * z')\<close> from it.
\<close>

lemma wheel_anchor_scaled_pan:
  fixes z z' :: real
  assumes "z \<noteq> 0" and "c + z * (q + p) = m"
  shows "c + z' * (q + ((m - c) * (1 - z' / z) + p * (z' / z)))
         = m + (z' - z) / z * ((m - c) * (1 - z') + p * z')"
proof -
  have q: "q = (m - c) / z - p" using assms by (simp add: field_simps)
  show ?thesis unfolding q using assms(1) by (simp add: field_simps)
qed

text \<open>
  C2: a wheel zoom sets the zoom to \<open>clamp (zoom + delta * zoom, 1, 3)\<close> and the pan to
  \<open>(cursor - c) * (1 - scaleFactor) + pan * scaleFactor\<close>, and the point of the image
  displayed under the cursor is the same before and after. In a box of 800 x 800 pixels,
  at zoom 1 and pan 0, a wheel step of \<open>deltaY = -100\<close> with the cursor 100 pixels right
  of the centre gives zoom 1.5 and pan \<open>(-50, 0)\<close>; the point displayed under the
  cursor before the step is displayed 25 pixels left of the cursor after it, since the
  style scales the pan with the content.
\<close>

theorem wheel_anchor_moves:
  "handleWheel (Some example_box) 500 400 (- 100) initial_app
     = initial_app\<lparr>zoom := Fin 1.5, pan := (Fin (- 50), Fin 0)\<rparr> \<and>
   displayed example_box initial_app (100, 0) = Some (500, 400) \<and>
   displayed example_box (handleWheel (Some example_box) 500 400 (- 100) initial_app) (100, 0)
     = Some (475, 400)"
proof -
  have w: "handleWheel (Some example_box) 500 400 (- 100) initial_app
     = initial_app\<lparr>zoom := Fin 1.5, pan := (Fin (- 50), Fin 0)\<rparr>"
    by (simp add: handleWheel_def example_defs Let_def js_sub_def)
  show ?thesis
    by (simp add: w) (simp add: displayed_def screenPosition_def viewTransform_def example_defs)
qed

text \<open>
  C10: a wheel event that pushes the zoom beyond the limit at which it already stands
  (zoom 3 and a positive step, zoom 1 and a negative step; the step is
  \<open>- deltaY * 0.005\<close>) leaves the whole state of the viewport unchanged: zoom and pan.
\<close>

theorem handleWheel_at_limit:
  assumes "(zoom s = Fin 3 \<and> deltaY < 0) \<or> (zoom s = Fin 1 \<and> 0 < deltaY)"
  shows "handleWheel container x y deltaY s = s"
proof (cases container)
  case None
  then show ?thesis by (simp add: handleWheel_def)
next
  case (Some r)
  from assms show ?thesis
  proof
    assume a: "zoom s = Fin 3 \<and> deltaY < 0"
    then have "handleWheel (Some r) x y deltaY s = s\<lparr>zoom := Fin 3, pan := (fst (pan s), snd (pan s))\<rparr>"
      by (simp add: handleWheel_def Let_def js_sub_def js_mul_one js_add_zero)
    with a Some show ?thesis by simp
  next
    assume a: "zoom s = Fin 1 \<and> 0 < deltaY"
    then have "handleWheel (Some r) x y deltaY s = s\<lparr>zoom := Fin 1, pan := (fst (pan s), snd (pan s))\<rparr>"
      by (simp add: handleWheel_def Let_def js_sub_def js_mul_one js_add_zero)
    with a Some show ?thesis by simp
  qed
qed

theorem handleWheel_at_limit_witness:
  "handleWheel (Some example_box) 500 300 100 (initial_app\<lparr>pan := (Fin 10, Fin 0)\<rparr>)
     = initial_app\<lparr>pan := (Fin 10, Fin 0)\<rparr> \<and>
   handleWheel (Some example_box) 500 300 (- 100) (initial_app\<lparr>zoom := Fin 3, pan := (Fin 10, Fin 0)\<rparr>)
     = initial_app\<lparr>zoom := Fin 3, pan := (Fin 10, Fin 0)\<rparr>"
proof -
  have lo: "(zoom (initial_app\<lparr>pan := (Fin 10, Fin 0)\<rparr>) = Fin 3 \<and> (100::real) < 0) \<or>
            (zoom (initial_app\<lparr>pan := (Fin 10, Fin 0)\<rparr>) = Fin 1 \<and> (0::real) < 100)"
    by (simp add: initial_app_def)
  have hi: "(zoom (initial_app\<lparr>zoom := Fin 3, pan := (Fin 10, Fin 0)\<rparr>) = Fin 3 \<and> (- 100::real) < 0) \<or>
            (zoom (initial_app\<lparr>zoom := Fin 3, pan := (Fin 10, Fin 0)\<rparr>) = Fin 1 \<and> (0::real) < - 100)"
    by simp
  from handleWheel_at_limit [OF lo] handleWheel_at_limit [OF hi]
  show ?thesis by simp
qed


section \<open>Pinch zoom\<close>

text \<open>
  C3: for a pinch anchored at distance 100, zoom 1 and pan \<open>(0, 0)\<close>, a move of the two
  touches to distance 200 around the same midpoint gives zoom 2 and the pan
  \<open>newMidOnScreen - worldPoint * 2\<close>, which is the negated position of the midpoint in
  the container; the pan is unchanged only if the midpoint is the top left corner of the
  container.
\<close>

theorem pinch_midpoint_anchor:
  assumes "pinchStartRef s = Some p" and "p_dist p = 100" and "p_zoom p = Fin 1"
    and "p_pan p = (Fin 0, Fin 0)"
    and "hypot (fst t1 - fst t2) (snd t1 - snd t2) = 200"
    and "((fst t1 + fst t2) / 2, (snd t1 + snd t2) / 2) = p_mid p"
  shows "zoom (onTouchMove (Some r) [t1, t2] s) = Fin 2 \<and>
         pan (onTouchMove (Some r) [t1, t2] s) =
           (Fin (rect_left r - fst (p_mid p)), Fin (rect_top r - snd (p_mid p)))"
  using assms(1-5) assms(6) [symmetric]
  by (simp add: onTouchMove_def pinchMove_def Let_def js_sub_def)

theorem pinch_midpoint_anchor_witness:
  "zoom (onTouchMove (Some example_box) [(0, 100), (200, 100)]
     (initial_app\<lparr>pinchStartRef :=
        Some \<lparr>p_dist = 100, p_mid = (100, 100), p_zoom = Fin 1, p_pan = (Fin 0, Fin 0)\<rparr>\<rparr>)) = Fin 2 \<and>
   pan (onTouchMove (Some example_box) [(0, 100), (200, 100)]
     (initial_app\<lparr>pinchStartRef :=
        Some \<lparr>p_dist = 100, p_mid = (100, 100), p_zoom = Fin 1, p_pan = (Fin 0, Fin 0)\<rparr>\<rparr>))
     = (Fin (- 100), Fin (- 100))"
proof -
  let ?p = "\<lparr>p_dist = 100, p_mid = (100, 100), p_zoom = Fin 1, p_pan = (Fin 0, Fin 0)\<rparr>"
  let ?s = "initial_app\<lparr>pinchStartRef := Some ?p\<rparr>"
  have a: "pinchStartRef ?s = Some ?p" by simp
  have b: "p_dist ?p = 100" and c: "p_zoom ?p = Fin 1" and d: "p_pan ?p = (Fin 0, Fin 0)"
    by simp_all
  have e: "hypot (fst (0::real, 100::real) - fst (200::real, 100::real))
                 (snd (0::real, 100::real) - snd (200::real, 100::real)) = 200"
    by (simp add: hypot_horizontal)
  have f: "((fst (0::real, 100::real) + fst (200::real, 100::real)) / 2,
            (snd (0::real, 100::real) + snd (200::real, 100::real)) / 2) = p_mid ?p"
    by simp
  from pinch_midpoint_anchor [OF a b c d e f, of example_box]
  show ?thesis by (simp add: example_box_def)
qed

text \<open>
  Two touches 100 pixels apart around \<open>(100, 100)\<close>, moved to 200 pixels apart around
  the same midpoint, from the initial state: the zoom becomes 2 and the pan
  \<open>(-100, -100)\<close>, not \<open>(0, 0)\<close>.
\<close>

theorem pinch_pan_changes:
  "onTouchMove (Some example_box) [(0, 100), (200, 100)]
     (onTouchStart (Some example_box) [(50, 100), (150, 100)] initial_app)
   = initial_app\<lparr>zoom := Fin 2, pan := (Fin (- 100), Fin (- 100)),
       pinchStartRef := Some \<lparr>p_dist = 100, p_mid = (100, 100), p_zoom = Fin 1, p_pan = (Fin 0, Fin 0)\<rparr>\<rparr> \<and>
   pan (onTouchMove (Some example_box) [(0, 100), (200, 100)]
     (onTouchStart (Some example_box) [(50, 100), (150, 100)] initial_app)) \<noteq> (Fin 0, Fin 0)"
  by (simp add: onTouchMove_def onTouchStart_def pinchMove_def example_defs Let_def
      hypot_horizontal js_sub_def)

section \<open>Zoom buttons\<close>

text \<open>
  C8: for a viewport with a zoom \<open>z\<close> in \<open>[1, 3]\<close> and a finite pan, the zoom + button
  sets the zoom to \<open>min (3, z + 0.2)\<close> and the zoom - button to \<open>max (1, z - 0.2)\<close>, and
  both leave the pan untouched; a wheel zoom with the cursor at the centre of the container
  sets the zoom to \<open>z' = clamp (z + delta * z, 1, 3)\<close> and rescales the pan by \<open>z' / z\<close>.
\<close>

theorem zoom_buttons:
  assumes "zoom s = Fin z" and "1 \<le> z" and "z \<le> 3" and "pan s = (Fin px, Fin py)"
  shows "zoomInClick s = s\<lparr>zoom := Fin (min 3 (z + 0.2))\<rparr> \<and>
         zoomOutClick s = s\<lparr>zoom := Fin (max 1 (z - 0.2))\<rparr> \<and>
         pan (zoomInClick s) = pan s \<and> pan (zoomOutClick s) = pan s \<and>
         handleWheel (Some r) (rect_left r + rect_width r / 2) (rect_top r + rect_height r / 2) deltaY s
           = s\<lparr>zoom := Fin (max 1 (min 3 (z + - deltaY * 0.005 * z))),
               pan := (Fin (px * (max 1 (min 3 (z + - deltaY * 0.005 * z)) / z)),
                       Fin (py * (max 1 (min 3 (z + - deltaY * 0.005 * z)) / z)))\<rparr>"
proof -
  have "zoomInClick s = s\<lparr>zoom := Fin (min 3 (z + 0.2))\<rparr>"
    using assms(1) by (simp add: zoomInClick_def min_def)
  moreover have "zoomOutClick s = s\<lparr>zoom := Fin (max 1 (z - 0.2))\<rparr>"
    using assms(1) by (simp add: zoomOutClick_def js_sub_def max_def)
  moreover have "pan (zoomInClick s) = pan s" "pan (zoomOutClick s) = pan s"
    by (simp_all add: zoomInClick_def zoomOutClick_def)
  moreover have "handleWheel (Some r) (rect_left r + rect_width r / 2) (rect_top r + rect_height r / 2) deltaY s
           = s\<lparr>zoom := Fin (max 1 (min 3 (z + - deltaY * 0.005 * z))),
               pan := (Fin (px * (max 1 (min 3 (z + - deltaY * 0.005 * z)) / z)),
                       Fin (py * (max 1 (min 3 (z + - deltaY * 0.005 * z)) / z)))\<rparr>"
    by (simp add: handleWheel_finite [OF assms(1,2,4)])
  ultimately show ?thesis by simp
qed

theorem zoom_buttons_witness:
  "zoomInClick (initial_app\<lparr>pan := (Fin 10, Fin 0)\<rparr>)
     = initial_app\<lparr>zoom := Fin 1.2, pan := (Fin 10, Fin 0)\<rparr> \<and>
   zoomOutClick (initial_app\<lparr>pan := (Fin 10, Fin 0)\<rparr>) = initial_app\<lparr>pan := (Fin 10, Fin 0)\<rparr> \<and>
   handleWheel (Some example_box) 400 400 (- 40) (initial_app\<lparr>pan := (Fin 10, Fin 0)\<rparr>)
     = initial_app\<lparr>zoom := Fin 1.2, pan := (Fin 12, Fin 0)\<rparr>"
proof -
  let ?s = "initial_app\<lparr>pan := (Fin 10, Fin 0)\<rparr>"
  have a: "zoom ?s = Fin 1" and d: "pan ?s = (Fin 10, Fin 0)"
    by (simp_all add: initial_app_def)
  have b: "(1::real) \<le> 1" and c: "(1::real) \<le> 3" by simp_all
  from zoom_buttons [OF a b c d, of example_box "- 40"]
  show ?thesis by (simp add: example_defs)
qed

text \<open>
  At zoom 1 and pan \<open>(10, 0)\<close> the zoom + button gives zoom 1.2 and pan \<open>(10, 0)\<close>; the
  wheel step that reaches the same zoom with the cursor at the centre of the container gives
  pan \<open>(12, 0)\<close>.
\<close>

theorem zoom_button_keeps_pan:
  "pan (zoomInClick (initial_app\<lparr>pan := (Fin 10, Fin 0)\<rparr>)) = (Fin 10, Fin 0) \<and>
   zoom (zoomInClick (initial_app\<lparr>pan := (Fin 10, Fin 0)\<rparr>)) = Fin 1.2 \<and>
   zoom (handleWheel (Some example_box) 400 400 (- 40) (initial_app\<lparr>pan := (Fin 10, Fin 0)\<rparr>)) = Fin 1.2 \<and>
   pan (handleWheel (Some example_box) 400 400 (- 40) (initial_app\<lparr>pan := (Fin 10, Fin 0)\<rparr>))
     = (Fin 12, Fin 0) \<and>
   zoomInClick (initial_app\<lparr>pan := (Fin 10, Fin 0)\<rparr>)
     \<noteq> handleWheel (Some example_box) 400 400 (- 40) (initial_app\<lparr>pan := (Fin 10, Fin 0)\<rparr>)"
proof -
  have b: "zoomInClick (initial_app\<lparr>pan := (Fin 10, Fin 0)\<rparr>)
     = initial_app\<lparr>zoom := Fin 1.2, pan := (Fin 10, Fin 0)\<rparr>"
    by (simp add: zoomInClick_def example_defs)
  have w: "handleWheel (Some example_box) 400 400 (- 40) (initial_app\<lparr>pan := (Fin 10, Fin 0)\<rparr>)
     = initial_app\<lparr>zoom := Fin 1.2, pan := (Fin 12, Fin 0)\<rparr>"
    by (simp add: handleWheel_def example_defs Let_def js_sub_def)
  show ?thesis by (simp add: b w) (simp add: initial_app_def)
qed

text \<open>No wheel step at the centre of the container does what the button does there.\<close>

lemma zoom_button_is_no_wheel_step:
  "handleWheel (Some example_box) 400 400 deltaY (initial_app\<lparr>pan := (Fin 10, Fin 0)\<rparr>)
     \<noteq> zoomInClick (initial_app\<lparr>pan := (Fin 10, Fin 0)\<rparr>)"
proof
  let ?s = "initial_app\<lparr>pan := (Fin 10, Fin 0)\<rparr>"
  let ?z = "max 1 (min 3 (1 + - deltaY * 0.005 * 1))::real"
  assume eq: "handleWheel (Some example_box) 400 400 deltaY ?s = zoomInClick ?s"
  have a: "zoom ?s = Fin 1" and d: "pan ?s = (Fin 10, Fin 0)"
    by (simp_all add: initial_app_def)
  have w: "handleWheel (Some example_box) 400 400 deltaY ?s
      = ?s\<lparr>zoom := Fin ?z,
            pan := (Fin ((400 - rect_left example_box - rect_width example_box / 2) * (1 - ?z / 1) + 10 * (?z / 1)),
                    Fin ((400 - rect_top example_box - rect_height example_box / 2) * (1 - ?z / 1) + 0 * (?z / 1)))\<rparr>"
    by (rule handleWheel_finite [OF a _ d]) simp
  have b: "zoomInClick ?s = ?s\<lparr>zoom := Fin 1.2\<rparr>"
    by (simp add: zoomInClick_def initial_app_def)
  from eq have "zoom (handleWheel (Some example_box) 400 400 deltaY ?s) = zoom (zoomInClick ?s)"
    and "pan (handleWheel (Some example_box) 400 400 deltaY ?s) = pan (zoomInClick ?s)"
    by simp_all
  then have "?z = 1.2" and "10 * ?z = (10::real)"
    unfolding w b by (simp_all add: example_box_def)
  then show False by simp
qed


section \<open>Drawing\<close>

lemma startDrawing_keeps:
  assumes "isDrawing e" "lastPoint e = Some p"
  shows "isDrawing (startDrawing r ev e) \<and> (\<exists>p'. lastPoint (startDrawing r ev e) = Some p') \<and>
         canvas (startDrawing r ev e) = canvas e \<and> image (startDrawing r ev e) = image e"
  using assms by (simp add: startDrawing_def split: option.splits)

text \<open>
  A call of \<open>draw\<close> whose clamped mapping returns null changes nothing; the next call
  that maps into the image draws from the previous point.
\<close>

lemma draw_outside_ignored:
  assumes "isDrawing e" and "lastPoint e = Some p" and "canvas e = Some cv"
    and "getCoordinates e r ev True = None"
    and "getCoordinates e r' ev' True = Some q"
  shows "draw b r ev e = e \<and>
         draw b r' ev' (draw b r ev e) =
           e\<lparr>canvas := Some (cv\<lparr>strokes := strokes cv @ [(p, q, brushColor b, brushSize b)]\<rparr>),
              lastPoint := Some q\<rparr>"
  using assms by (simp add: draw_def)

lemma draw_outside_ignored_example:
  "draw example_brush example_box (MouseEv 400 50)
     (loaded\<lparr>isDrawing := True, lastPoint := Some (Fin 500, Fin 250)\<rparr>)
     = loaded\<lparr>isDrawing := True, lastPoint := Some (Fin 500, Fin 250)\<rparr> \<and>
   draw example_brush example_box (MouseEv 400 300)
     (draw example_brush example_box (MouseEv 400 50)
        (loaded\<lparr>isDrawing := True, lastPoint := Some (Fin 500, Fin 250)\<rparr>))
     = loaded\<lparr>isDrawing := True,
          canvas := Some \<lparr>r_width = 1000, r_height = 500, photo = Some ''photo'',
                           strokes = [((Fin 500, Fin 250), (Fin 500, Fin 125), ''#ff0000'', 20)]\<rparr>,
          lastPoint := Some (Fin 500, Fin 125)\<rparr>"
proof -
  let ?e = "loaded\<lparr>isDrawing := True, lastPoint := Some (Fin 500, Fin 250)\<rparr>"
  let ?cv = "\<lparr>r_width = 1000, r_height = 500, photo = Some ''photo'', strokes = []\<rparr>"
  have a: "isDrawing ?e" and b: "lastPoint ?e = Some (Fin 500, Fin 250)" by simp_all
  have c: "canvas ?e = Some ?cv" by (simp add: example_defs)
  have d: "getCoordinates ?e example_box (MouseEv 400 50) True = None"
    by (simp add: mapping_defs example_defs)
  have e: "getCoordinates ?e example_box (MouseEv 400 300) True = Some (Fin 500, Fin 125)"
    by (simp add: mapping_defs example_defs)
  from draw_outside_ignored [OF a b c d e, of example_brush]
  show ?thesis by (elim conjE) (simp add: example_brush_def)
qed

lemma drawPreview_keeps:
  "isDrawing (drawPreview r pe e) = isDrawing e \<and> lastPoint (drawPreview r pe e) = lastPoint e \<and>
   canvas (drawPreview r pe e) = canvas e \<and> image (drawPreview r pe e) = image e"
  by (simp add: drawPreview_def split: option.splits)

lemma step_move:
  assumes "move_pointer ev = Some pe"
  shows "edit (step v ev s) = handleMouseMove (brushProps v) (canvasRect v) pe (edit s) \<or>
         edit (step v ev s) = handleTouchMove (brushProps v) (canvasRect v) pe (edit s)"
  using assms by (cases ev rule: move_pointer.cases) (auto simp: on_editor_def)

lemma move_outside:
  assumes "isDrawing e" and "getCoordinates e r pe True = None"
    and "e' = handleMouseMove b r pe e \<or> e' = handleTouchMove b r pe e"
  shows "isDrawing e' \<and> lastPoint e' = lastPoint e \<and> canvas e' = canvas e \<and> image e' = image e"
proof -
  note k = drawPreview_keeps [of r pe e]
  have "getCoordinates (drawPreview r pe e) r pe True = None"
    using getCoordinates_cong [of "drawPreview r pe e" e] k assms(2) by simp
  then have "draw b r pe (drawPreview r pe e) = drawPreview r pe e"
    by (simp add: draw_def)
  moreover have "draw b r pe e = e" using assms(2) by (simp add: draw_def)
  ultimately show ?thesis
    using assms(1,3) k by (auto simp: handleMouseMove_def handleTouchMove_def)
qed

lemma move_inside:
  assumes "isDrawing e" and "lastPoint e = Some p" and "canvas e = Some cv"
    and "getCoordinates e r pe True = Some q"
    and "e' = handleMouseMove b r pe e \<or> e' = handleTouchMove b r pe e"
  shows "canvas e' = Some (cv\<lparr>strokes := strokes cv @ [(p, q, brushColor b, brushSize b)]\<rparr>) \<and>
         lastPoint e' = Some q"
proof -
  note k = drawPreview_keeps [of r pe e]
  have "getCoordinates (drawPreview r pe e) r pe True = Some q"
    using getCoordinates_cong [of "drawPreview r pe e" e] k assms(4) by simp
  then have "canvas (draw b r pe (drawPreview r pe e))
        = Some (cv\<lparr>strokes := strokes cv @ [(p, q, brushColor b, brushSize b)]\<rparr>) \<and>
      lastPoint (draw b r pe (drawPreview r pe e)) = Some q"
    using assms(1-3) k by (simp add: draw_def)
  moreover have "canvas (draw b r pe e)
        = Some (cv\<lparr>strokes := strokes cv @ [(p, q, brushColor b, brushSize b)]\<rparr>) \<and>
      lastPoint (draw b r pe e) = Some q"
    using assms(1-4) by (simp add: draw_def)
  ultimately show ?thesis
    using assms(5) by (auto simp: handleMouseMove_def handleTouchMove_def)
qed

text \<open>
  C6: while a stroke is being drawn, for every move of the pointer whose clamped mapping
  returns null the stroke goes on and the previous point is kept: no segment is drawn and
  no error is raised; after the pointer has come back into the image, the first move that
  maps into it draws a segment from the point recorded before the pointer left to the new
  point.
\<close>

theorem move_outside_keeps_lastPoint:
  assumes "isDrawing (edit s)" and "lastPoint (edit s) = Some p" and "canvas (edit s) = Some cv"
    and "move_pointer ev = Some pe"
    and "getCoordinates (edit s) (canvasRect v) pe True = None"
    and "move_pointer ev' = Some pe'"
    and "getCoordinates (edit s) (canvasRect v') pe' True = Some q"
  shows "isDrawing (edit (step v ev s)) \<and>
         lastPoint (edit (step v ev s)) = Some p \<and>
         canvas (edit (step v ev s)) = Some cv \<and>
         canvas (edit (step v' ev' (step v ev s)))
           = Some (cv\<lparr>strokes := strokes cv @
                [(p, q, brushColor (brushProps v'), brushSize (brushProps v'))]\<rparr>) \<and>
         lastPoint (edit (step v' ev' (step v ev s))) = Some q"
proof -
  let ?e1 = "edit (step v ev s)"
  from move_outside [OF assms(1,5) step_move [OF assms(4)]]
  have e1: "isDrawing ?e1" "lastPoint ?e1 = Some p" "canvas ?e1 = Some cv" "image ?e1 = image (edit s)"
    using assms(2,3) by simp_all
  have gc: "getCoordinates ?e1 (canvasRect v') pe' True = Some q"
    using getCoordinates_cong [of ?e1 "edit s"] e1(3,4) assms(3,7) by simp
  from move_inside [OF e1(1-3) gc step_move [OF assms(6)]] e1 show ?thesis by simp
qed

theorem move_outside_keeps_lastPoint_witness:
  "lastPoint (edit (step example_env (MouseMove OnEditor 400 50)
      \<lparr>view = initial_app, edit = loaded\<lparr>isDrawing := True, lastPoint := Some (Fin 500, Fin 250)\<rparr>\<rparr>))
     = Some (Fin 500, Fin 250) \<and>
   canvas (edit (step example_env (MouseMove OnEditor 400 300)
     (step example_env (MouseMove OnEditor 400 50)
      \<lparr>view = initial_app, edit = loaded\<lparr>isDrawing := True, lastPoint := Some (Fin 500, Fin 250)\<rparr>\<rparr>)))
     = Some \<lparr>r_width = 1000, r_height = 500, photo = Some ''photo'',
              strokes = [((Fin 500, Fin 250), (Fin 500, Fin 125), ''#ff0000'', 20)]\<rparr>"
proof -
  let ?e = "loaded\<lparr>isDrawing := True, lastPoint := Some (Fin 500, Fin 250)\<rparr>"
  let ?s = "\<lparr>view = initial_app, edit = ?e\<rparr>"
  let ?cv = "\<lparr>r_width = 1000, r_height = 500, photo = Some ''photo'', strokes = []\<rparr>"
  have a: "isDrawing (edit ?s)" and b: "lastPoint (edit ?s) = Some (Fin 500, Fin 250)" by simp_all
  have c: "canvas (edit ?s) = Some ?cv" by (simp add: example_defs)
  have m1: "move_pointer (MouseMove OnEditor 400 50) = Some (MouseEv 400 50)" by simp
  have m2: "move_pointer (MouseMove OnEditor 400 300) = Some (MouseEv 400 300)" by simp
  have d: "getCoordinates (edit ?s) (canvasRect example_env) (MouseEv 400 50) True = None"
    by (simp add: mapping_defs example_defs)
  have e: "getCoordinates (edit ?s) (canvasRect example_env) (MouseEv 400 300) True = Some (Fin 500, Fin 125)"
    by (simp add: mapping_defs example_defs)
  from move_outside_keeps_lastPoint [OF a b c m1 d m2 e]
  show ?thesis by (elim conjE) (simp add: example_env_def example_brush_def)
qed

text \<open>
  A stroke started at \<open>(400, 400)\<close>, a move into the upper margin, a move back into the
  photo: after the move into the margin the previous point is still \<open>(500, 250)\<close>, and
  the move back draws the segment from it to \<open>(500, 125)\<close>.
\<close>

theorem draw_keeps_lastPoint:
  "lastPoint (draw example_brush example_box (MouseEv 400 50)
      (startDrawing example_box (MouseEv 400 400) loaded)) = Some (Fin 500, Fin 250) \<and>
   map_option strokes (canvas (draw example_brush example_box (MouseEv 400 300)
      (draw example_brush example_box (MouseEv 400 50)
        (startDrawing example_box (MouseEv 400 400) loaded))))
     = Some [((Fin 500, Fin 250), (Fin 500, Fin 125), ''#ff0000'', 20)]"
  by (simp add: startDrawing_def draw_def mapping_defs example_defs)

section \<open>Gestures\<close>

lemma onTouchMove_pinchStartRef: "pinchStartRef (onTouchMove c ts a) = pinchStartRef a"
  by (simp add: onTouchMove_def pinchMove_def Let_def handlePanMove_def split: option.splits)

text \<open>
  C7: when a second touch appears while a stroke is being drawn, the viewport takes a pinch
  anchor and stops panning, and the stroke is not cancelled: Pinching and Drawing are both
  active, and a following move of the two touches whose first touch maps into the image
  draws a further segment while the pinch goes on. Drawing is kept by the editor and
  Panning and Pinching by the viewport, independently of each other.
\<close>

theorem second_touch_keeps_drawing:
  assumes "isDrawing (edit s)" and "lastPoint (edit s) = Some p" and "canvas (edit s) = Some cv"
    and "getCoordinates (edit s) (canvasRect v') (TouchEv [u1, u2]) True = Some q"
  shows "active (step v (TouchStart OnEditor [t1, t2]) s) Pinching \<and>
         \<not> active (step v (TouchStart OnEditor [t1, t2]) s) Panning \<and>
         active (step v (TouchStart OnEditor [t1, t2]) s) Drawing \<and>
         active (step v' (TouchMove OnEditor [u1, u2]) (step v (TouchStart OnEditor [t1, t2]) s)) Pinching \<and>
         active (step v' (TouchMove OnEditor [u1, u2]) (step v (TouchStart OnEditor [t1, t2]) s)) Drawing \<and>
         (\<exists>p'. canvas (edit (step v' (TouchMove OnEditor [u1, u2]) (step v (TouchStart OnEditor [t1, t2]) s)))
            = Some (cv\<lparr>strokes := strokes cv @ [(p', q, brushColor (brushProps v'), brushSize (brushProps v'))]\<rparr>))"
proof -
  let ?e1 = "startDrawing (canvasRect v) (TouchEv [t1, t2]) (edit s)"
  from startDrawing_keeps [OF assms(1,2)]
  obtain p' where e1: "isDrawing ?e1" "lastPoint ?e1 = Some p'" "canvas ?e1 = canvas (edit s)"
      "image ?e1 = image (edit s)"
    by blast
  have gc: "getCoordinates ?e1 (canvasRect v') (TouchEv [u1, u2]) True = Some q"
    using getCoordinates_cong [OF e1(3,4)] assms(4) by simp
  have d: "draw (brushProps v') (canvasRect v') (TouchEv [u1, u2]) ?e1 =
      ?e1\<lparr>canvas := Some (cv\<lparr>strokes := strokes cv @ [(p', q, brushColor (brushProps v'), brushSize (brushProps v'))]\<rparr>),
          lastPoint := Some q\<rparr>"
    using e1 gc assms(3) by (simp add: draw_def)
  have start: "active (step v (TouchStart OnEditor [t1, t2]) s) Pinching \<and>
         \<not> active (step v (TouchStart OnEditor [t1, t2]) s) Panning \<and>
         active (step v (TouchStart OnEditor [t1, t2]) s) Drawing"
    using e1(1) by (simp add: active_def on_editor_def onTouchStart_def)
  have move: "active (step v' (TouchMove OnEditor [u1, u2]) (step v (TouchStart OnEditor [t1, t2]) s)) Pinching \<and>
         active (step v' (TouchMove OnEditor [u1, u2]) (step v (TouchStart OnEditor [t1, t2]) s)) Drawing"
    using e1(1) d
    by (simp add: active_def on_editor_def handleTouchMove_def onTouchMove_pinchStartRef onTouchStart_def)
  have "canvas (edit (step v' (TouchMove OnEditor [u1, u2]) (step v (TouchStart OnEditor [t1, t2]) s)))
            = Some (cv\<lparr>strokes := strokes cv @ [(p', q, brushColor (brushProps v'), brushSize (brushProps v'))]\<rparr>)"
    using d by (simp add: on_editor_def handleTouchMove_def)
  then have stroke: "\<exists>p'. canvas (edit (step v' (TouchMove OnEditor [u1, u2]) (step v (TouchStart OnEditor [t1, t2]) s)))
            = Some (cv\<lparr>strokes := strokes cv @ [(p', q, brushColor (brushProps v'), brushSize (brushProps v'))]\<rparr>)"
    by (rule exI)
  from start move stroke show ?thesis by blast
qed

theorem second_touch_keeps_drawing_witness:
  "active (step example_env (TouchStart OnEditor [(400, 400), (500, 400)])
     \<lparr>view = initial_app, edit = loaded\<lparr>isDrawing := True, lastPoint := Some (Fin 500, Fin 250)\<rparr>\<rparr>) Pinching \<and>
   active (step example_env (TouchStart OnEditor [(400, 400), (500, 400)])
     \<lparr>view = initial_app, edit = loaded\<lparr>isDrawing := True, lastPoint := Some (Fin 500, Fin 250)\<rparr>\<rparr>) Drawing \<and>
   (\<exists>p'. canvas (edit (step example_env (TouchMove OnEditor [(400, 300), (500, 300)])
      (step example_env (TouchStart OnEditor [(400, 400), (500, 400)])
        \<lparr>view = initial_app, edit = loaded\<lparr>isDrawing := True, lastPoint := Some (Fin 500, Fin 250)\<rparr>\<rparr>)))
     = Some \<lparr>r_width = 1000, r_height = 500, photo = Some ''photo'',
              strokes = [(p', (Fin 500, Fin 125), ''#ff0000'', 20)]\<rparr>)"
proof -
  let ?e = "loaded\<lparr>isDrawing := True, lastPoint := Some (Fin 500, Fin 250)\<rparr>"
  let ?s = "\<lparr>view = initial_app, edit = ?e\<rparr>"
  let ?cv = "\<lparr>r_width = 1000, r_height = 500, photo = Some ''photo'', strokes = []\<rparr>"
  have a: "isDrawing (edit ?s)" and b: "lastPoint (edit ?s) = Some (Fin 500, Fin 250)" by simp_all
  have c: "canvas (edit ?s) = Some ?cv" by (simp add: example_defs)
  have d: "getCoordinates (edit ?s) (canvasRect example_env) (TouchEv [(400, 300), (500, 300)]) True
      = Some (Fin 500, Fin 125)"
    by (simp add: mapping_defs example_defs)
  from second_touch_keeps_drawing [OF a b c d, of example_env "(400, 400)" "(500, 400)"]
  show ?thesis by (simp add: example_defs)
qed

text \<open>
  A photo loads, a finger touches it at \<open>(400, 400)\<close>, a second finger joins at
  \<open>(500, 400)\<close>, both move up by 100 pixels. After the first touch Drawing and Panning
  are both active; after the second touch Pinching and Drawing are; the move of the two
  touches draws a segment.
\<close>

theorem drawing_during_pinch:
  "active (run [(example_env, ImageLoaded example_photo),
                (example_env, TouchStart OnEditor [(400, 400)])] initial) Drawing \<and>
   active (run [(example_env, ImageLoaded example_photo),
                (example_env, TouchStart OnEditor [(400, 400)])] initial) Panning \<and>
   active (run [(example_env, ImageLoaded example_photo),
                (example_env, TouchStart OnEditor [(400, 400)]),
                (example_env, TouchStart OnEditor [(400, 400), (500, 400)])] initial) Pinching \<and>
   active (run [(example_env, ImageLoaded example_photo),
                (example_env, TouchStart OnEditor [(400, 400)]),
                (example_env, TouchStart OnEditor [(400, 400), (500, 400)])] initial) Drawing \<and>
   map_option strokes (canvas (edit (run [(example_env, ImageLoaded example_photo),
                (example_env, TouchStart OnEditor [(400, 400)]),
                (example_env, TouchStart OnEditor [(400, 400), (500, 400)]),
                (example_env, TouchMove OnEditor [(400, 300), (500, 300)])] initial)))
     = Some [((Fin 500, Fin 250), (Fin 500, Fin 125), ''#ff0000'', 20)]"
  by (simp add: active_def on_editor_def onTouchStart_def onTouchMove_def pinchMove_def
      handlePanStart_def handleTouchMove_def hypot_horizontal startDrawing_def draw_def
      mapping_defs example_defs)


section \<open>The zoom factor along a run\<close>

lemma handleWheel_in_range:
  "zoom_in_range (zoom s) \<Longrightarrow> zoom_in_range (zoom (handleWheel c x y d s))"
  by (cases c)
     (auto simp: handleWheel_def Let_def zoom_in_range_Fin
           intro!: clamp_in_range [unfolded zoom_in_range_Fin])

lemma zoomInClick_in_range: "zoom_in_range (zoom s) \<Longrightarrow> zoom_in_range (zoom (zoomInClick s))"
  by (auto simp: zoomInClick_def zoom_in_range_Fin)

lemma zoomOutClick_in_range: "zoom_in_range (zoom s) \<Longrightarrow> zoom_in_range (zoom (zoomOutClick s))"
  by (auto simp: zoomOutClick_def zoom_in_range_Fin js_sub_def)

lemma pinch_scale:
  assumes "zoom_in_range z" "0 \<le> n" "0 \<le> d" "\<not> (d = 0 \<and> n = 0)"
  shows "js_mul z (js_div (Fin n) (Fin d)) \<noteq> NaN"
  using assms by (auto simp: zoom_in_range_Fin)

lemma pinchMove_in_range:
  assumes "zoom_in_range (zoom s)" "zoom_in_range (p_zoom p)" "0 \<le> p_dist p"
    and "\<not> (p_dist p = 0 \<and> hypot (fst t1 - fst t2) (snd t1 - snd t2) = 0)"
  shows "zoom_in_range (zoom (pinchMove c t1 t2 p s))"
proof (cases c)
  case None
  then show ?thesis using assms(1) by (simp add: pinchMove_def Let_def)
next
  case (Some r)
  have "js_mul (p_zoom p) (js_div (Fin (hypot (fst t1 - fst t2) (snd t1 - snd t2))) (Fin (p_dist p))) \<noteq> NaN"
    using assms(2) hypot_nonneg assms(3) assms(4) by (rule pinch_scale)
  then show ?thesis using Some by (simp add: pinchMove_def Let_def clamp_in_range)
qed

text \<open>
  Every event other than a degenerate pinch move keeps the zoom, and the zoom recorded in
  the pinch anchor, within \<open>[1, 3]\<close>.
\<close>

lemma step_zoom_inv:
  assumes "zoom_inv (view s)" and "\<not> degenerate_pinch ev (view s)"
  shows "zoom_inv (view (step v ev s))"
proof (cases ev)
  case (TouchMove t ts)
  show ?thesis
  proof (cases "pinchStartRef (view s)")
    case None
    then show ?thesis using assms(1) TouchMove
      by (simp add: zoom_inv_def onTouchMove_def handlePanMove_def)
  next
    case (Some p)
    show ?thesis
    proof (cases "length ts = 2")
      case True
      with Some assms TouchMove
      have "zoom_in_range (zoom (pinchMove (containerRect v) (ts ! 0) (ts ! 1) p (view s)))"
        by (intro pinchMove_in_range) (auto simp: zoom_inv_def degenerate_pinch_def)
      moreover have "pinchStartRef (pinchMove c a b p (view s)) = pinchStartRef (view s)" for c a b
        by (cases c) (simp_all add: pinchMove_def Let_def)
      ultimately show ?thesis using assms(1) TouchMove Some True
        by (simp add: zoom_inv_def onTouchMove_def)
    next
      case False
      then show ?thesis using assms(1) TouchMove Some
        by (simp add: zoom_inv_def onTouchMove_def handlePanMove_def)
    qed
  qed
next
  case (TouchStart t ts)
  then show ?thesis using assms(1)
    by (cases "containerRect v")
       (auto simp: zoom_inv_def onTouchStart_def handlePanStart_def Let_def hypot_nonneg)
next
  case (TouchEnd t ts)
  then show ?thesis using assms(1)
    by (cases "containerRect v")
       (auto simp: zoom_inv_def onTouchEnd_def handlePanStart_def handlePanEnd_def Let_def)
next
  case (Wheel x y d)
  have "pinchStartRef (handleWheel c x y d a) = pinchStartRef a" for c a
    by (cases c) (simp_all add: handleWheel_def Let_def)
  then show ?thesis using assms(1) Wheel handleWheel_in_range [of "view s"]
    by (simp add: zoom_inv_def)
next
  case (MouseDown t b x y)
  then show ?thesis using assms(1)
    by (cases "containerRect v") (auto simp: zoom_inv_def onMouseDown_def handlePanStart_def)
next
  case (MouseMove t x y)
  then show ?thesis using assms(1)
    by (auto simp: zoom_inv_def onMouseMove_def handlePanMove_def)
next
  case ZoomInButton
  then show ?thesis using assms(1) zoomInClick_in_range [of "view s"]
    by (simp add: zoom_inv_def zoomInClick_def)
next
  case ZoomOutButton
  then show ?thesis using assms(1) zoomOutClick_in_range [of "view s"]
    by (simp add: zoom_inv_def zoomOutClick_def)
next
  case ResetViewButton
  then show ?thesis using assms(1)
    by (simp add: zoom_inv_def resetView_def zoom_in_range_def)
next
  case (PanControl dx dy)
  then show ?thesis using assms(1)
    by (simp add: zoom_inv_def handlePanByControl_def)
qed (use assms(1) in \<open>simp_all add: zoom_inv_def\<close>)

lemma run_zoom_inv: "zoom_inv (view s) \<Longrightarrow> regular evs s \<Longrightarrow> zoom_inv (view (run evs s))"
proof (induction evs arbitrary: s)
  case Nil
  then show ?case by simp
next
  case (Cons a evs)
  obtain v ev where a: "a = (v, ev)" by (cases a)
  from Cons.prems a have "zoom_inv (view (step v ev s))" and "regular evs (step v ev s)"
    by (simp_all add: step_zoom_inv)
  then have "zoom_inv (view (run evs (step v ev s)))" by (rule Cons.IH)
  then show ?case by (simp add: a)
qed

lemma regular_run_in_range:
  "regular evs initial \<Longrightarrow> zoom_in_range (zoom (view (run evs initial)))"
proof -
  assume r: "regular evs initial"
  have "zoom_inv (view initial)"
    by (simp add: zoom_inv_def zoom_in_range_def initial_def initial_app_def)
  from run_zoom_inv [OF this r] show ?thesis by (simp add: zoom_inv_def)
qed

text \<open>
  C1: from zoom 1, the zoom is within \<open>[1, 3]\<close> after every wheel event, pinch move
  and press of a zoom button. Two touches that start on one point and then move together
  on one point: the start distance and the new distance are both 0, the scale is
  \<open>0 / 0\<close>, and \<open>Math.max (1, Math.min (3, NaN))\<close> is stored as the zoom.
\<close>

theorem degenerate_pinch_zoom:
  "zoom (view (run [(example_env, TouchStart OnContainer [(100, 100), (100, 100)]),
                    (example_env, TouchMove OnContainer [(100, 100), (100, 100)])] initial)) = NaN \<and>
   \<not> zoom_in_range (zoom (view (run [(example_env, TouchStart OnContainer [(100, 100), (100, 100)]),
                    (example_env, TouchMove OnContainer [(100, 100), (100, 100)])] initial)))"
  by (simp add: onTouchMove_def onTouchStart_def pinchMove_def example_defs Let_def
      hypot_horizontal js_sub_def on_editor_def zoom_in_range_def)

end
